theory Spec2Isabelle
  imports Main
begin

section \<open>Data model (app/models.py, app/config.py)\<close>

text \<open>
  A \<^verbatim>\<open>datetime\<close> is the number of microseconds since the epoch, in UTC (the
  resolution of Python's \<^verbatim>\<open>datetime\<close>). Python's unbounded integers are \<^typ>\<open>int\<close>.
\<close>

type_synonym datetime = int

datatype JobStatus = QUEUED | WAITING_DOMAIN_LOCK | RUNNING | SUCCEEDED | FAILED

text \<open>
  \<^verbatim>\<open>submission_date\<close> is the text \<^verbatim>\<open>now.strftime("%Y-%m-%d")\<close>; the model keeps the
  number of the UTC day, of which that text is an injective rendering.
  \<^verbatim>\<open>metadata_json\<close> keeps the submitted dictionary in place of its JSON text.
\<close>

record Job =
  job_id :: string
  normalized_url :: string
  main_domain :: string
  status :: JobStatus
  attempts :: int
  created_at :: datetime
  started_at :: "datetime option"
  finished_at :: "datetime option"
  error_code :: "string option"
  error_message :: "string option"
  render_mode :: string
  navigation_timeout_seconds :: int
  job_timeout_seconds :: int
  max_domain_wait_seconds :: int
  max_retries :: int
  deduplicated :: bool
  submission_date :: int
  metadata_json :: "(string \<times> string) list option"

text \<open>The columns of \<^verbatim>\<open>DomainLock\<close>; \<^verbatim>\<open>main_domain\<close> and \<^verbatim>\<open>job_id\<close> carry a prefix
  because \<^verbatim>\<open>Job\<close> has columns of the same names.\<close>

record DomainLock =
  lock_main_domain :: string
  lock_job_id :: string
  locked_at :: datetime
  max_wait_seconds :: int

text \<open>
  The database session: the rows of the two tables, in insertion order.
  \<^verbatim>\<open>jobs.job_id\<close> and \<^verbatim>\<open>domain_locks.main_domain\<close> are primary keys and
  \<^verbatim>\<open>idx_dedup\<close> is a unique index on \<^verbatim>\<open>(normalized_url, submission_date)\<close>.
\<close>

record store =
  jobs :: "Job list"
  domain_locks :: "DomainLock list"

definition empty_store :: store where
  "empty_store = \<lparr>jobs = [], domain_locks = []\<rparr>"

definition db_constraints :: "store \<Rightarrow> bool" where
  "db_constraints db =
     (distinct (map job_id (jobs db)) \<and>
      distinct (map (\<lambda>j. (normalized_url j, submission_date j)) (jobs db)) \<and>
      distinct (map lock_main_domain (domain_locks db)))"

text \<open>The fields of \<^verbatim>\<open>Settings\<close> that the queue reads, with a prefix for the same
  reason; \<^verbatim>\<open>default_settings\<close> holds the defaults of app/config.py.\<close>

record Settings =
  default_render_mode :: string
  settings_navigation_timeout_seconds :: int
  settings_job_timeout_seconds :: int
  settings_max_domain_wait_seconds :: int
  settings_max_retries :: int

definition default_settings :: Settings where
  "default_settings =
     \<lparr>default_render_mode = ''print_to_pdf'',
      settings_navigation_timeout_seconds = 45,
      settings_job_timeout_seconds = 120,
      settings_max_domain_wait_seconds = 600,
      settings_max_retries = 2\<rparr>"

section \<open>Errors and the environment\<close>

text \<open>
  The exceptions the modelled code raises, as values. Each of these classes derives
  from \<^verbatim>\<open>Exception\<close>, which is what \<^verbatim>\<open>except Exception\<close> tests.
\<close>

datatype error =
    ValueError string
  | SSRFError string
  | IntegrityError
  | gaierror
  | OtherException

fun is_gaierror :: "error \<Rightarrow> bool" where
  "is_gaierror gaierror = True"
| "is_gaierror _ = False"

fun is_Exception :: "error \<Rightarrow> bool" where
  "is_Exception (ValueError m) = True"
| "is_Exception (SSRFError m) = True"
| "is_Exception IntegrityError = True"
| "is_Exception gaierror = True"
| "is_Exception OtherException = True"

text \<open>
  What the code reads from outside the repository: the module-level \<^verbatim>\<open>settings\<close>,
  \<^verbatim>\<open>socket.getaddrinfo\<close> (the address strings \<^verbatim>\<open>addr[4][0]\<close> of its answer, or the
  exception it raises), \<^verbatim>\<open>psl.privatesuffix\<close> of the public suffix list, and the
  IPv6 parser of \<^verbatim>\<open>ipaddress\<close> (the address as an integer, \<^verbatim>\<open>None\<close> where it raises).
\<close>

record env =
  settings :: Settings
  getaddrinfo :: "string \<Rightarrow> error + string list"
  privatesuffix :: "string \<Rightarrow> string option"
  ip6_address :: "string \<Rightarrow> int option"

section \<open>Python strings\<close>

text \<open>
  A Python \<^verbatim>\<open>str\<close> is modelled as a list of 8-bit characters; the string operations
  below are those of Python on ASCII text (\<^verbatim>\<open>str.lower\<close> changes the letters A to Z
  only).
\<close>

definition code :: "char \<Rightarrow> nat" where
  "code c = of_char c"

definition is_upper :: "char \<Rightarrow> bool" where
  "is_upper c = (65 \<le> code c \<and> code c \<le> 90)"

definition is_ascii_alpha :: "char \<Rightarrow> bool" where
  "is_ascii_alpha c = (is_upper c \<or> (97 \<le> code c \<and> code c \<le> 122))"

definition is_digit :: "char \<Rightarrow> bool" where
  "is_digit c = (48 \<le> code c \<and> code c \<le> 57)"

definition lower_char :: "char \<Rightarrow> char" where
  "lower_char c = (if is_upper c then char_of (code c + 32) else c)"

definition lower :: "string \<Rightarrow> string" where
  "lower s = map lower_char s"

text \<open>\<^verbatim>\<open>s.partition(c)\<close> is \<^verbatim>\<open>(before c s, c, after c s)\<close> when \<^verbatim>\<open>c in s\<close>, and
  \<^verbatim>\<open>(s, '', '')\<close> otherwise; \<^verbatim>\<open>s.split(c, 1)\<close> is \<^verbatim>\<open>[before c s, after c s]\<close> when
  \<^verbatim>\<open>c in s\<close>.\<close>

definition before :: "char \<Rightarrow> string \<Rightarrow> string" where
  "before c s = takeWhile (\<lambda>x. x \<noteq> c) s"

definition after :: "char \<Rightarrow> string \<Rightarrow> string" where
  "after c s = drop 1 (dropWhile (\<lambda>x. x \<noteq> c) s)"

text \<open>\<^verbatim>\<open>s[:s.rfind(c)]\<close> and \<^verbatim>\<open>s[s.rfind(c)+1:]\<close> for \<^verbatim>\<open>c in s\<close>;
  \<^verbatim>\<open>after_last c s\<close> is also \<^verbatim>\<open>s.rpartition(c)[2]\<close> for every \<^verbatim>\<open>s\<close>.\<close>

definition before_last :: "char \<Rightarrow> string \<Rightarrow> string" where
  "before_last c s = rev (after c (rev s))"

definition after_last :: "char \<Rightarrow> string \<Rightarrow> string" where
  "after_last c s = rev (before c (rev s))"

definition rstrip :: "char \<Rightarrow> string \<Rightarrow> string" where
  "rstrip c s = rev (dropWhile (\<lambda>x. x = c) (rev s))"

fun split_on :: "char \<Rightarrow> string \<Rightarrow> string list" where
  "split_on c [] = [[]]"
| "split_on c (x # xs) =
     (if x = c then [] # split_on c xs
      else (case split_on c xs of
              [] \<Rightarrow> [[x]]
            | w # ws \<Rightarrow> (x # w) # ws))"

definition digit_char :: "nat \<Rightarrow> char" where
  "digit_char n = char_of (48 + n)"

fun str_nat :: "nat \<Rightarrow> string" where
  "str_nat n = (if n < 10 then [digit_char n] else str_nat (n div 10) @ [digit_char (n mod 10)])"

declare str_nat.simps [simp del]

definition str_int :: "int \<Rightarrow> string" where
  "str_int i = (if i < 0 then CHR ''-'' # str_nat (nat (- i)) else str_nat (nat i))"

text \<open>\<^verbatim>\<open>int(s, 10)\<close> on a string of decimal digits.\<close>

definition int_of_digits :: "string \<Rightarrow> int" where
  "int_of_digits s = foldl (\<lambda>n c. 10 * n + (int (code c) - 48)) 0 s"

section \<open>The standard library: ipaddress\<close>

datatype ip = IPv4 int | IPv6 int

definition parse_octet :: "string \<Rightarrow> int option" where
  "parse_octet octet_str =
     (if octet_str = [] then None
      else if \<not> list_all is_digit octet_str then None
      else if length octet_str > 3 then None
      else if octet_str \<noteq> ''0'' \<and> hd octet_str = CHR ''0'' then None
      else if int_of_digits octet_str > 255 then None
      else Some (int_of_digits octet_str))"

definition ip4_address :: "string \<Rightarrow> int option" where
  "ip4_address ip_str =
     (case map parse_octet (split_on CHR ''.'' ip_str) of
        [Some a, Some b, Some c, Some d] \<Rightarrow> Some (((a * 256 + b) * 256 + c) * 256 + d)
      | _ \<Rightarrow> None)"

definition ip_address :: "env \<Rightarrow> string \<Rightarrow> ip option" where
  "ip_address E address =
     (case ip4_address address of
        Some n \<Rightarrow> Some (IPv4 n)
      | None \<Rightarrow> (case ip6_address E address of
                   Some n \<Rightarrow> Some (IPv6 n)
                 | None \<Rightarrow> None))"

text \<open>A network is its base address and prefix length; \<^verbatim>\<open>ip in network\<close> is false
  across versions and compares the leading bits otherwise.\<close>

fun ip_in_network :: "ip \<Rightarrow> ip \<times> nat \<Rightarrow> bool" where
  "ip_in_network (IPv4 a) (IPv4 b, p) = (a div 2 ^ (32 - p) = b div 2 ^ (32 - p))"
| "ip_in_network (IPv6 a) (IPv6 b, p) = (a div 2 ^ (128 - p) = b div 2 ^ (128 - p))"
| "ip_in_network _ _ = False"

definition ip4 :: "int \<Rightarrow> int \<Rightarrow> int \<Rightarrow> int \<Rightarrow> ip" where
  "ip4 a b c d = IPv4 (((a * 256 + b) * 256 + c) * 256 + d)"

section \<open>The standard library: urllib.parse\<close>

text \<open>
  \<^verbatim>\<open>urlsplit\<close>, \<^verbatim>\<open>urlparse\<close>, \<^verbatim>\<open>urlunsplit\<close> and \<^verbatim>\<open>urlunparse\<close> as CPython 3.11.10
  defines them, for the default arguments the repository uses. \<^verbatim>\<open>_checknetloc\<close> returns
  at once on an ASCII authority and is left out. Other releases differ in
  \<^verbatim>\<open>urlunsplit\<close> for an empty authority only, and in the check of a bracketed host
  only by the URLs for which \<^verbatim>\<open>urlsplit\<close> raises \<^verbatim>\<open>ValueError\<close>; the text of that
  error leaves out the \<^verbatim>\<open>repr\<close> of the address.
\<close>

definition uses_netloc :: "string list" where
  "uses_netloc =
     ['''', ''ftp'', ''http'', ''gopher'', ''nntp'', ''telnet'', ''imap'', ''wais'', ''file'',
      ''mms'', ''https'', ''shttp'', ''snews'', ''prospero'', ''rtsp'', ''rtsps'', ''rtspu'',
      ''rsync'', ''svn'', ''svn+ssh'', ''sftp'', ''nfs'', ''git'', ''git+ssh'', ''ws'', ''wss'']"

definition uses_params :: "string list" where
  "uses_params =
     ['''', ''ftp'', ''hdl'', ''prospero'', ''http'', ''imap'', ''https'', ''shttp'', ''rtsp'',
      ''rtsps'', ''rtspu'', ''sip'', ''sips'', ''mms'', ''sftp'', ''tel'']"

definition scheme_char :: "char \<Rightarrow> bool" where
  "scheme_char c =
     (is_ascii_alpha c \<or> is_digit c \<or> c = CHR ''+'' \<or> c = CHR ''-'' \<or> c = CHR ''.'')"

text \<open>\<^verbatim>\<open>url.lstrip(_WHATWG_C0_CONTROL_OR_SPACE)\<close>, then the removal of tab, CR and LF.\<close>

definition unsafe_byte :: "char \<Rightarrow> bool" where
  "unsafe_byte c = (code c = 9 \<or> code c = 13 \<or> code c = 10)"

definition clean_url :: "string \<Rightarrow> string" where
  "clean_url url = filter (\<lambda>c. \<not> unsafe_byte c) (dropWhile (\<lambda>c. code c \<le> 32) url)"

definition split_scheme :: "string \<Rightarrow> string \<times> string" where
  "split_scheme url =
     (if CHR '':'' \<in> set url \<and> before CHR '':'' url \<noteq> [] \<and> is_ascii_alpha (hd url)
         \<and> list_all scheme_char (before CHR '':'' url)
      then (lower (before CHR '':'' url), after CHR '':'' url)
      else ([], url))"

definition netloc_delim :: "char \<Rightarrow> bool" where
  "netloc_delim c = (c = CHR ''/'' \<or> c = CHR ''?'' \<or> c = CHR ''#'')"

text \<open>\<^verbatim>\<open>_splitnetloc(url, 2)\<close>, called when \<^verbatim>\<open>url[:2] == '//'\<close>.\<close>

definition splitnetloc :: "string \<Rightarrow> string \<times> string" where
  "splitnetloc url =
     (takeWhile (\<lambda>c. \<not> netloc_delim c) (drop 2 url),
      dropWhile (\<lambda>c. \<not> netloc_delim c) (drop 2 url))"

definition is_hex :: "char \<Rightarrow> bool" where
  "is_hex c =
     (is_digit c \<or> (97 \<le> code c \<and> code c \<le> 102) \<or> (65 \<le> code c \<and> code c \<le> 70))"

text \<open>The regular expression \<^verbatim>\<open>\Av[a-fA-F0-9]+\..+\Z\<close> on a string that starts with
  \<^verbatim>\<open>v\<close> and holds no line feed.\<close>

definition ipvfuture_ok :: "string \<Rightarrow> bool" where
  "ipvfuture_ok h =
     (takeWhile is_hex (tl h) \<noteq> []
      \<and> take 1 (dropWhile is_hex (tl h)) = ''.''
      \<and> drop 1 (dropWhile is_hex (tl h)) \<noteq> [])"

definition check_bracketed_host :: "env \<Rightarrow> string \<Rightarrow> error + unit" where
  "check_bracketed_host E hostname =
     (if take 1 hostname = ''v''
      then (if ipvfuture_ok hostname then Inr ()
            else Inl (ValueError ''IPvFuture address is invalid''))
      else (case ip_address E hostname of
              None \<Rightarrow> Inl (ValueError ''does not appear to be an IPv4 or IPv6 address'')
            | Some (IPv4 n) \<Rightarrow> Inl (ValueError ''An IPv4 address cannot be in brackets'')
            | Some (IPv6 n) \<Rightarrow> Inr ()))"

definition check_netloc :: "env \<Rightarrow> string \<Rightarrow> error + unit" where
  "check_netloc E netloc =
     (if (CHR ''['' \<in> set netloc \<and> CHR '']'' \<notin> set netloc)
         \<or> (CHR '']'' \<in> set netloc \<and> CHR ''['' \<notin> set netloc)
      then Inl (ValueError ''Invalid IPv6 URL'')
      else if CHR ''['' \<in> set netloc \<and> CHR '']'' \<in> set netloc
      then check_bracketed_host E (before CHR '']'' (after CHR ''['' netloc))
      else Inr ())"

text \<open>The five components \<^verbatim>\<open>(scheme, netloc, url, query, fragment)\<close> that \<^verbatim>\<open>urlsplit\<close>
  cuts out of the cleaned text.\<close>

definition split_components :: "string \<Rightarrow> string \<times> string \<times> string \<times> string \<times> string" where
  "split_components url =
     (case split_scheme url of (scheme, url2) \<Rightarrow>
      case (if take 2 url2 = ''//'' then splitnetloc url2 else ([], url2)) of (netloc, url3) \<Rightarrow>
      case (if CHR ''#'' \<in> set url3 then (before CHR ''#'' url3, after CHR ''#'' url3)
            else (url3, [])) of (url4, fragment) \<Rightarrow>
      case (if CHR ''?'' \<in> set url4 then (before CHR ''?'' url4, after CHR ''?'' url4)
            else (url4, [])) of (url5, query) \<Rightarrow>
      (scheme, netloc, url5, query, fragment))"

definition urlsplit ::
  "env \<Rightarrow> string \<Rightarrow> error + string \<times> string \<times> string \<times> string \<times> string" where
  "urlsplit E url =
     (case split_components (clean_url url) of (scheme, netloc, url5, query, fragment) \<Rightarrow>
        (case check_netloc E netloc of
           Inl e \<Rightarrow> Inl e
         | Inr u \<Rightarrow> Inr (scheme, netloc, url5, query, fragment)))"

text \<open>\<^verbatim>\<open>_splitparams\<close>: the first \<^verbatim>\<open>;\<close> at or after the last \<^verbatim>\<open>/\<close>. Without a
  \<^verbatim>\<open>/\<close> and without a \<^verbatim>\<open>;\<close>, \<^verbatim>\<open>find\<close> answers -1 and the slices are
  \<^verbatim>\<open>url[:-1]\<close> and \<^verbatim>\<open>url[0:]\<close>.\<close>

definition splitparams :: "string \<Rightarrow> string \<times> string" where
  "splitparams url =
     (if CHR ''/'' \<in> set url
      then (if CHR '';'' \<in> set (after_last CHR ''/'' url)
            then (before_last CHR ''/'' url @ CHR ''/'' # before CHR '';'' (after_last CHR ''/'' url),
                  after CHR '';'' (after_last CHR ''/'' url))
            else (url, []))
      else if CHR '';'' \<in> set url then (before CHR '';'' url, after CHR '';'' url)
      else (butlast url, url))"

record ParseResult =
  scheme :: string
  netloc :: string
  path :: string
  params :: string
  query :: string
  fragment :: string

definition urlparse :: "env \<Rightarrow> string \<Rightarrow> error + ParseResult" where
  "urlparse E url =
     (case urlsplit E url of
        Inl e \<Rightarrow> Inl e
      | Inr (scheme', netloc', url', query', fragment') \<Rightarrow>
          (case (if scheme' \<in> set uses_params \<and> CHR '';'' \<in> set url' then splitparams url'
                 else (url', [])) of (path', params') \<Rightarrow>
             Inr \<lparr>scheme = scheme', netloc = netloc', path = path', params = params',
                  query = query', fragment = fragment'\<rparr>))"

definition urlunsplit :: "string \<times> string \<times> string \<times> string \<times> string \<Rightarrow> string" where
  "urlunsplit c =
     (case c of (scheme', netloc', url, query', fragment') \<Rightarrow>
        (let url1 = (if netloc' \<noteq> [] \<or> (scheme' \<noteq> [] \<and> scheme' \<in> set uses_netloc)
                        \<or> take 2 url = ''//''
                     then ''//'' @ netloc' @ (if url \<noteq> [] \<and> take 1 url \<noteq> ''/'' then CHR ''/'' # url else url)
                     else url);
             url2 = (if scheme' \<noteq> [] then scheme' @ '':'' @ url1 else url1);
             url3 = (if query' \<noteq> [] then url2 @ ''?'' @ query' else url2)
         in if fragment' \<noteq> [] then url3 @ ''#'' @ fragment' else url3))"

definition urlunparse ::
  "string \<times> string \<times> string \<times> string \<times> string \<times> string \<Rightarrow> string" where
  "urlunparse c =
     (case c of (scheme', netloc', url, params', query', fragment') \<Rightarrow>
        urlunsplit (scheme', netloc', (if params' \<noteq> [] then url @ '';'' @ params' else url),
                    query', fragment'))"

text \<open>The properties \<^verbatim>\<open>_hostinfo\<close> and \<^verbatim>\<open>hostname\<close> of a parse result.\<close>

definition hostinfo :: "string \<Rightarrow> string" where
  "hostinfo netloc' =
     (let hi = after_last CHR ''@'' netloc'
      in if CHR ''['' \<in> set hi then before CHR '']'' (after CHR ''['' hi)
         else before CHR '':'' hi)"

definition hostname :: "ParseResult \<Rightarrow> string option" where
  "hostname p =
     (let h = hostinfo (netloc p)
      in if h = [] then None
         else Some (lower (before CHR ''%'' h)
                    @ (if CHR ''%'' \<in> set h then CHR ''%'' # after CHR ''%'' h else [])))"

section \<open>URL validation and SSRF protection (app/security/url_validator.py)\<close>

definition PRIVATE_IP_RANGES :: "(ip \<times> nat) list" where
  "PRIVATE_IP_RANGES =
     [(ip4 10 0 0 0, 8),
      (ip4 172 16 0 0, 12),
      (ip4 192 168 0 0, 16),
      (ip4 127 0 0 0, 8),
      (ip4 169 254 0 0, 16),
      (IPv6 1, 128),
      (IPv6 (64512 * 2 ^ 112), 7),
      (IPv6 (65152 * 2 ^ 112), 10)]"

definition METADATA_ENDPOINTS :: "string list" where
  "METADATA_ENDPOINTS = [''169.254.169.254'', ''metadata.google.internal'']"

definition normalize_url :: "env \<Rightarrow> string \<Rightarrow> error + string" where
  "normalize_url E url =
     (case urlparse E (lower url) of
        Inl e \<Rightarrow> Inl e
      | Inr parsed \<Rightarrow>
          Inr (urlunparse
                 (scheme parsed,
                  netloc parsed,
                  (if path parsed \<noteq> ''/'' then rstrip CHR ''/'' (path parsed) else ''/''),
                  params parsed,
                  query parsed,
                  [])))"

definition validate_url_format :: "env \<Rightarrow> string \<Rightarrow> error + unit" where
  "validate_url_format E url =
     (if url = [] then Inl (ValueError ''URL must be a non-empty string'')
      else (case urlparse E url of
              Inl e \<Rightarrow> Inl e
            | Inr parsed \<Rightarrow>
                if scheme parsed \<notin> {''http'', ''https''}
                then Inl (ValueError ''URL must use http or https scheme'')
                else if netloc parsed = []
                then Inl (ValueError ''URL must have a valid domain'')
                else Inr ()))"

definition is_private_ip :: "env \<Rightarrow> string \<Rightarrow> bool" where
  "is_private_ip E hostname' =
     (case ip_address E hostname' of
        Some ip \<Rightarrow> list_ex (ip_in_network ip) PRIVATE_IP_RANGES
      | None \<Rightarrow> False)"

definition is_metadata_endpoint :: "string \<Rightarrow> bool" where
  "is_metadata_endpoint hostname' = (lower hostname' \<in> set METADATA_ENDPOINTS)"

text \<open>The body of the \<^verbatim>\<open>try\<close> block of \<^verbatim>\<open>validate_ssrf\<close>: the exception it raises, if
  any.\<close>

definition resolve_and_check :: "env \<Rightarrow> string \<Rightarrow> error + unit" where
  "resolve_and_check E hostname' =
     (case getaddrinfo E hostname' of
        Inl e \<Rightarrow> Inl e
      | Inr addrs \<Rightarrow>
          (case find (is_private_ip E) addrs of
             Some ip_str \<Rightarrow> Inl (SSRFError (''Hostname resolves to private IP: '' @ ip_str))
           | None \<Rightarrow> Inr ()))"

text \<open>The two handlers of that block, \<^verbatim>\<open>except socket.gaierror: pass\<close> and
  \<^verbatim>\<open>except Exception: pass\<close>, in their order.\<close>

definition validate_ssrf :: "env \<Rightarrow> string \<Rightarrow> error + unit" where
  "validate_ssrf E url =
     (case urlparse E url of
        Inl e \<Rightarrow> Inl e
      | Inr parsed \<Rightarrow>
          (case hostname parsed of
             None \<Rightarrow> Inl (SSRFError ''Invalid hostname'')
           | Some h \<Rightarrow>
               if is_metadata_endpoint h
               then Inl (SSRFError ''Access to metadata endpoints is blocked'')
               else if is_private_ip E h
               then Inl (SSRFError ''Access to private IP ranges is blocked'')
               else if lower h \<in> {''localhost'', ''localhost.localdomain''}
               then Inl (SSRFError ''Access to localhost is blocked'')
               else (case resolve_and_check E h of
                       Inr u \<Rightarrow> Inr ()
                     | Inl e \<Rightarrow>
                         if is_gaierror e then Inr ()
                         else if is_Exception e then Inr ()
                         else Inl e)))"

section \<open>Domain extraction (app/utils/domain.py)\<close>

text \<open>When the \<^verbatim>\<open>try\<close> block raises, the handler parses the URL again and answers
  the lower-cased host name if there is one, so both paths agree on every URL that
  parses; \<^verbatim>\<open>privatesuffix\<close> answering \<^verbatim>\<open>None\<close> or the empty string falls back to the
  host name.\<close>

definition extract_main_domain :: "env \<Rightarrow> string \<Rightarrow> error + string" where
  "extract_main_domain E url =
     (case urlparse E url of
        Inl e \<Rightarrow> Inl e
      | Inr parsed \<Rightarrow>
          (case hostname parsed of
             None \<Rightarrow> Inl (ValueError (''Cannot extract domain from URL: '' @ url))
           | Some h \<Rightarrow>
               Inr (lower (case privatesuffix E h of
                             None \<Rightarrow> h
                           | Some d \<Rightarrow> if d = [] then h else d))))"

section \<open>Queue service (app/queue/service.py)\<close>

text \<open>\<^verbatim>\<open>select(Job).where(Job.job_id == job_id)\<close> with \<^verbatim>\<open>scalar_one_or_none()\<close>: the
  primary key leaves at most one such row.\<close>

definition get_job :: "store \<Rightarrow> string \<Rightarrow> Job option" where
  "get_job db jid = find (\<lambda>j. job_id j = jid) (jobs db)"

text \<open>Assignments to the attributes of a loaded row, written back at \<^verbatim>\<open>db.commit()\<close>.\<close>

definition update_job :: "string \<Rightarrow> (Job \<Rightarrow> Job) \<Rightarrow> store \<Rightarrow> store" where
  "update_job jid f db = db\<lparr>jobs := map (\<lambda>j. if job_id j = jid then f j else j) (jobs db)\<rparr>"

text \<open>\<^verbatim>\<open>DomainLock.__table__.delete().where(DomainLock.main_domain == d)\<close>.\<close>

definition delete_domain_lock :: "string \<Rightarrow> store \<Rightarrow> store" where
  "delete_domain_lock d db =
     db\<lparr>domain_locks := filter (\<lambda>l. lock_main_domain l \<noteq> d) (domain_locks db)\<rparr>"

text \<open>\<^verbatim>\<open>order_by(Job.created_at).limit(1)\<close>: the row with the least \<^verbatim>\<open>created_at\<close>;
  among equal ones the row inserted first.\<close>

fun oldest :: "Job list \<Rightarrow> Job option" where
  "oldest [] = None"
| "oldest (j # js) =
     (case oldest js of
        None \<Rightarrow> Some j
      | Some k \<Rightarrow> if created_at j \<le> created_at k then Some j else Some k)"

definition select_oldest :: "JobStatus \<Rightarrow> store \<Rightarrow> Job option" where
  "select_oldest st db = oldest (filter (\<lambda>j. status j = st) (jobs db))"

text \<open>The candidate of \<^verbatim>\<open>claim_next_job\<close>: the oldest \<^verbatim>\<open>QUEUED\<close> row, and when there is
  none the oldest \<^verbatim>\<open>WAITING_DOMAIN_LOCK\<close> row. One session runs at a time, so
  \<^verbatim>\<open>skip_locked\<close> skips nothing.\<close>

definition next_candidate :: "store \<Rightarrow> Job option" where
  "next_candidate db =
     (case select_oldest QUEUED db of
        Some job \<Rightarrow> Some job
      | None \<Rightarrow> select_oldest WAITING_DOMAIN_LOCK db)"

definition find_domain_lock :: "store \<Rightarrow> string \<Rightarrow> DomainLock option" where
  "find_domain_lock db d = find (\<lambda>l. lock_main_domain l = d) (domain_locks db)"

definition wait_timeout :: "Job \<Rightarrow> Job" where
  "wait_timeout job =
     job\<lparr>status := FAILED,
         error_code := Some ''DOMAIN_WAIT_TIMEOUT'',
         error_message :=
           Some (''Exceeded max domain wait time: '' @ str_int (max_domain_wait_seconds job) @ ''s'')\<rparr>"

text \<open>\<^verbatim>\<open>(now - created_at).total_seconds() > job.max_domain_wait_seconds\<close> compares
  seconds; with both times in microseconds the budget is scaled instead.\<close>

definition claim_next_job :: "datetime \<Rightarrow> store \<Rightarrow> Job option \<times> store" where
  "claim_next_job now db =
     (case next_candidate db of
        None \<Rightarrow> (None, db)
      | Some job \<Rightarrow>
          (case find_domain_lock db (main_domain job) of
             Some lock \<Rightarrow>
               if now - created_at job > max_domain_wait_seconds job * 1000000
               then (None, update_job (job_id job)
                             (\<lambda>j. (wait_timeout j)\<lparr>finished_at := Some now\<rparr>) db)
               else if status job \<noteq> WAITING_DOMAIN_LOCK
               then (None, update_job (job_id job) (\<lambda>j. j\<lparr>status := WAITING_DOMAIN_LOCK\<rparr>) db)
               else (None, db)
           | None \<Rightarrow>
               (let new_lock = \<lparr>lock_main_domain = main_domain job,
                                lock_job_id = job_id job,
                                locked_at = now,
                                max_wait_seconds = max_domain_wait_seconds job\<rparr>;
                    claimed = (\<lambda>j. j\<lparr>status := RUNNING,
                                       started_at := Some now,
                                       attempts := attempts j + 1\<rparr>)
                in (Some (claimed job),
                    update_job (job_id job) claimed
                      (db\<lparr>domain_locks := domain_locks db @ [new_lock]\<rparr>)))))"

definition complete_job ::
  "datetime \<Rightarrow> string \<Rightarrow> bool \<Rightarrow> string option \<Rightarrow> string option \<Rightarrow> store \<Rightarrow> store" where
  "complete_job now jid success ec em db =
     (case get_job db jid of
        None \<Rightarrow> db
      | Some job \<Rightarrow>
          delete_domain_lock (main_domain job)
            (update_job jid
               (\<lambda>j. (if success
                      then j\<lparr>status := SUCCEEDED, error_code := None, error_message := None\<rparr>
                      else j\<lparr>status := FAILED, error_code := ec, error_message := em\<rparr>)
                     \<lparr>finished_at := Some now\<rparr>) db))"

definition requeue_job :: "string \<Rightarrow> store \<Rightarrow> store" where
  "requeue_job jid db =
     (case get_job db jid of
        None \<Rightarrow> db
      | Some job \<Rightarrow>
          update_job jid (\<lambda>j. j\<lparr>status := QUEUED, started_at := None\<rparr>)
            (delete_domain_lock (main_domain job) db))"

text \<open>Python's \<^verbatim>\<open>x or d\<close> on an optional integer and an optional string.\<close>

definition or_int :: "int option \<Rightarrow> int \<Rightarrow> int" where
  "or_int x d = (case x of None \<Rightarrow> d | Some n \<Rightarrow> if n = 0 then d else n)"

definition or_str :: "string option \<Rightarrow> string \<Rightarrow> string" where
  "or_str x d = (case x of None \<Rightarrow> d | Some s \<Rightarrow> if s = [] then d else s)"

text \<open>The keyword arguments of \<^verbatim>\<open>create_job\<close> after \<^verbatim>\<open>url\<close>.\<close>

record overrides =
  arg_render_mode :: "string option"
  arg_navigation_timeout_seconds :: "int option"
  arg_job_timeout_seconds :: "int option"
  arg_max_domain_wait_seconds :: "int option"
  arg_max_retries :: "int option"
  arg_metadata :: "(string \<times> string) list option"

definition no_overrides :: overrides where
  "no_overrides =
     \<lparr>arg_render_mode = None, arg_navigation_timeout_seconds = None,
      arg_job_timeout_seconds = None, arg_max_domain_wait_seconds = None,
      arg_max_retries = None, arg_metadata = None\<rparr>"

definition utc_day :: "datetime \<Rightarrow> int" where
  "utc_day now = now div 86400000000"

definition find_dedup :: "store \<Rightarrow> string \<Rightarrow> int \<Rightarrow> Job option" where
  "find_dedup db n d = find (\<lambda>j. normalized_url j = n \<and> submission_date j = d) (jobs db)"

definition new_job :: "env \<Rightarrow> datetime \<Rightarrow> string \<Rightarrow> string \<Rightarrow> string \<Rightarrow> overrides \<Rightarrow> Job" where
  "new_job E now uuid n d a =
     \<lparr>job_id = uuid,
      normalized_url = n,
      main_domain = d,
      status = QUEUED,
      attempts = 0,
      created_at = now,
      started_at = None,
      finished_at = None,
      error_code = None,
      error_message = None,
      render_mode = or_str (arg_render_mode a) (default_render_mode (settings E)),
      navigation_timeout_seconds =
        or_int (arg_navigation_timeout_seconds a) (settings_navigation_timeout_seconds (settings E)),
      job_timeout_seconds =
        or_int (arg_job_timeout_seconds a) (settings_job_timeout_seconds (settings E)),
      max_domain_wait_seconds =
        or_int (arg_max_domain_wait_seconds a) (settings_max_domain_wait_seconds (settings E)),
      max_retries = or_int (arg_max_retries a) (settings_max_retries (settings E)),
      deduplicated = False,
      submission_date = utc_day now,
      metadata_json = (case arg_metadata a of
                         None \<Rightarrow> None
                       | Some m \<Rightarrow> if m = [] then None else Some m)\<rparr>"

text \<open>\<^verbatim>\<open>db.add(job); db.commit()\<close> raises \<^verbatim>\<open>IntegrityError\<close> when the primary key or the
  unique index \<^verbatim>\<open>idx_dedup\<close> would be violated.\<close>

definition violates_constraints :: "store \<Rightarrow> Job \<Rightarrow> bool" where
  "violates_constraints db job =
     (job_id job \<in> set (map job_id (jobs db))
      \<or> (normalized_url job, submission_date job)
          \<in> set (map (\<lambda>j. (normalized_url j, submission_date j)) (jobs db)))"

text \<open>
  \<^verbatim>\<open>create_job\<close>, with the clock reading \<^verbatim>\<open>now\<close> and the fresh \<^verbatim>\<open>uuid4\<close> as arguments.
  It returns the exception or the pair \<^verbatim>\<open>(job, deduplicated)\<close>, and the store it leaves.
\<close>

definition create_job ::
  "env \<Rightarrow> datetime \<Rightarrow> string \<Rightarrow> string \<Rightarrow> overrides \<Rightarrow> store \<Rightarrow> (error + Job \<times> bool) \<times> store" where
  "create_job E now uuid url a db =
     (case validate_url_format E url of
        Inl e \<Rightarrow> (Inl e, db)
      | Inr u1 \<Rightarrow>
     (case validate_ssrf E url of
        Inl e \<Rightarrow> (Inl e, db)
      | Inr u2 \<Rightarrow>
     (case normalize_url E url of
        Inl e \<Rightarrow> (Inl e, db)
      | Inr n \<Rightarrow>
     (case extract_main_domain E url of
        Inl e \<Rightarrow> (Inl e, db)
      | Inr d \<Rightarrow>
     (case find_dedup db n (utc_day now) of
        Some existing_job \<Rightarrow> (Inr (existing_job, True), db)
      | None \<Rightarrow>
          (let job = new_job E now uuid n d a
           in if violates_constraints db job
              then (case find_dedup db n (utc_day now) of
                      Some existing_job \<Rightarrow> (Inr (existing_job, True), db)
                    | None \<Rightarrow> (Inl IntegrityError, db))
              else (Inr (job, False), db\<lparr>jobs := jobs db @ [job]\<rparr>)))))))"

section \<open>Worker (app/worker/main.py)\<close>

definition non_retryable :: "string list" where
  "non_retryable =
     [''INVALID_URL'', ''SSRF_BLOCKED'', ''HTTP_4XX'', ''CAPTCHA_DETECTED'', ''DOMAIN_WAIT_TIMEOUT'']"

definition should_retry :: "Job \<Rightarrow> string option \<Rightarrow> bool" where
  "should_retry job ec =
     (if (case ec of None \<Rightarrow> False | Some c \<Rightarrow> c \<in> set non_retryable) then False
      else attempts job < max_retries job)"

text \<open>The block of \<^verbatim>\<open>Worker.run\<close> under \<^verbatim>\<open># Update job status\<close>, applied to the job the
  worker claimed and the triple \<^verbatim>\<open>process_job\<close> returned.\<close>

definition run_update_status ::
  "datetime \<Rightarrow> Job \<Rightarrow> bool \<times> string option \<times> string option \<Rightarrow> store \<Rightarrow> store" where
  "run_update_status now job r db =
     (case r of (success, ec, em) \<Rightarrow>
        if success then complete_job now (job_id job) True None None db
        else if should_retry job ec then requeue_job (job_id job) db
        else complete_job now (job_id job) False
               (Some (or_str ec ''RENDER_FAILED'')) (Some (or_str em ''Unknown error'')) db)"

section \<open>Reachable states and the lock invariant\<close>

text \<open>The number of \<^verbatim>\<open>DomainLock\<close> rows whose \<^verbatim>\<open>job_id\<close> is the given one, and the
  invariant that a job is \<^verbatim>\<open>RUNNING\<close> exactly when that number is one.\<close>

definition lock_count :: "store \<Rightarrow> string \<Rightarrow> nat" where
  "lock_count db jid = length (filter (\<lambda>l. lock_job_id l = jid) (domain_locks db))"

definition running_iff_locked :: "store \<Rightarrow> bool" where
  "running_iff_locked db =
     list_all (\<lambda>j. (status j = RUNNING) = (lock_count db (job_id j) = 1)) (jobs db)"

definition is_running :: "store \<Rightarrow> string \<Rightarrow> bool" where
  "is_running db jid = (case get_job db jid of None \<Rightarrow> False | Some j \<Rightarrow> status j = RUNNING)"

text \<open>The stores that any sequence of the four queue operations reaches from the
  empty database, with any arguments.\<close>

inductive queue_reachable :: "env \<Rightarrow> store \<Rightarrow> bool" for E :: env where
  q_init: "queue_reachable E empty_store"
| q_submit: "queue_reachable E db \<Longrightarrow> queue_reachable E (snd (create_job E now uuid url a db))"
| q_claim: "queue_reachable E db \<Longrightarrow> queue_reachable E (snd (claim_next_job now db))"
| q_complete: "queue_reachable E db \<Longrightarrow> queue_reachable E (complete_job now jid success ec em db)"
| q_requeue: "queue_reachable E db \<Longrightarrow> queue_reachable E (requeue_job jid db)"

text \<open>The stores reached when \<^verbatim>\<open>complete_job\<close> and \<^verbatim>\<open>requeue_job\<close> are only called for
  a job that is \<^verbatim>\<open>RUNNING\<close>, which is how \<^verbatim>\<open>Worker.run\<close> calls them: for the job that
  \<^verbatim>\<open>claim_next_job\<close> has just handed to it.\<close>

inductive worker_reachable :: "env \<Rightarrow> store \<Rightarrow> bool" for E :: env where
  w_init: "worker_reachable E empty_store"
| w_submit: "worker_reachable E db \<Longrightarrow> worker_reachable E (snd (create_job E now uuid url a db))"
| w_claim: "worker_reachable E db \<Longrightarrow> worker_reachable E (snd (claim_next_job now db))"
| w_complete: "worker_reachable E db \<Longrightarrow> is_running db jid \<Longrightarrow>
     worker_reachable E (complete_job now jid success ec em db)"
| w_requeue: "worker_reachable E db \<Longrightarrow> is_running db jid \<Longrightarrow>
     worker_reachable E (requeue_job jid db)"

text \<open>Every lock row belongs to a \<^verbatim>\<open>RUNNING\<close> job of its domain; every \<^verbatim>\<open>RUNNING\<close> job
  has a lock row; an update of a row that leaves its key columns alone.\<close>

definition locks_owned :: "store \<Rightarrow> bool" where
  "locks_owned db =
     (db_constraints db \<and>
      (\<forall>l\<in>set (domain_locks db). \<exists>j\<in>set (jobs db).
          job_id j = lock_job_id l \<and> status j = RUNNING \<and> main_domain j = lock_main_domain l))"

definition running_locked :: "store \<Rightarrow> bool" where
  "running_locked db =
     (\<forall>j\<in>set (jobs db). status j = RUNNING \<longrightarrow>
        (\<exists>l\<in>set (domain_locks db). lock_job_id l = job_id j))"

definition keeps_keys :: "(Job \<Rightarrow> Job) \<Rightarrow> bool" where
  "keeps_keys f = (\<forall>j. job_id (f j) = job_id j \<and> normalized_url (f j) = normalized_url j
      \<and> submission_date (f j) = submission_date j \<and> main_domain (f j) = main_domain j)"

section \<open>Concrete inputs\<close>

text \<open>An environment with the default settings, in which no host name resolves and
  the public suffix list knows no suffix; two submissions for one domain, and the
  stores the queue operations make of them.\<close>

definition example_env :: env where
  "example_env =
     \<lparr>settings = default_settings,
      getaddrinfo = (\<lambda>h. Inl gaierror),
      privatesuffix = (\<lambda>h. None),
      ip6_address = (\<lambda>h. None)\<rparr>"

definition job_p1 :: Job where
  "job_p1 = new_job example_env 1000 ''u1'' ''https://example.com/p1'' ''example.com'' no_overrides"

definition job_p2 :: Job where
  "job_p2 = new_job example_env 1001 ''u2'' ''https://example.com/p2'' ''example.com'' no_overrides"

definition db_one :: store where
  "db_one = \<lparr>jobs = [job_p1], domain_locks = []\<rparr>"

definition db_two :: store where
  "db_two = \<lparr>jobs = [job_p1, job_p2], domain_locks = []\<rparr>"

definition db_running :: store where
  "db_running = snd (claim_next_job 2000 db_two)"

definition db_done :: store where
  "db_done = complete_job 4000 ''u1'' True None None db_running"

section \<open>Vocabulary of the URL proofs\<close>






text \<open>An environment in which every host name resolves to the private address
  10.0.0.5.\<close>

definition resolving_env :: env where
  "resolving_env = example_env\<lparr>getaddrinfo := (\<lambda>h. Inr [''10.0.0.5''])\<rparr>"

section \<open>Lemmas about the tables\<close>

lemma oldest_mem: "oldest js = Some j \<Longrightarrow> j \<in> set js"
  by (induction js arbitrary: j) (auto split: option.splits if_splits)

lemma select_oldest_mem:
  "select_oldest st db = Some j \<Longrightarrow> j \<in> set (jobs db) \<and> status j = st"
  using oldest_mem [of "filter (\<lambda>j. status j = st) (jobs db)" j]
  by (simp add: select_oldest_def)

lemma next_candidate_mem:
  "next_candidate db = Some j \<Longrightarrow>
     j \<in> set (jobs db) \<and> (status j = QUEUED \<or> status j = WAITING_DOMAIN_LOCK)"
  by (auto simp: next_candidate_def split: option.splits dest: select_oldest_mem)

lemma find_job_id_distinct:
  "distinct (map job_id js) \<Longrightarrow> j \<in> set js \<Longrightarrow> find (\<lambda>x. job_id x = job_id j) js = Some j"
  by (induction js) (auto simp: image_iff)

lemma get_job_mem:
  "db_constraints db \<Longrightarrow> j \<in> set (jobs db) \<Longrightarrow> get_job db (job_id j) = Some j"
  by (simp add: db_constraints_def get_job_def find_job_id_distinct)

lemma get_job_Some: "get_job db jid = Some j \<Longrightarrow> j \<in> set (jobs db) \<and> job_id j = jid"
  by (auto simp: get_job_def find_Some_iff in_set_conv_nth)

lemma find_map_update:
  "(\<And>j. job_id (f j) = job_id j) \<Longrightarrow>
   find (\<lambda>j. job_id j = jid') (map (\<lambda>j. if job_id j = jid then f j else j) js)
     = (if jid' = jid then map_option f (find (\<lambda>j. job_id j = jid) js)
        else find (\<lambda>j. job_id j = jid') js)"
  by (induction js) auto

lemma get_job_update_job:
  "(\<And>j. job_id (f j) = job_id j) \<Longrightarrow>
   get_job (update_job jid f db) jid'
     = (if jid' = jid then map_option f (get_job db jid) else get_job db jid')"
  by (simp add: get_job_def update_job_def find_map_update)

lemma domain_locks_update_job [simp]: "domain_locks (update_job jid f db) = domain_locks db"
  by (simp add: update_job_def)

lemma jobs_delete_domain_lock [simp]: "jobs (delete_domain_lock d db) = jobs db"
  by (simp add: delete_domain_lock_def)

lemma get_job_delete_domain_lock [simp]: "get_job (delete_domain_lock d db) jid = get_job db jid"
  by (simp add: get_job_def)

lemma get_job_add_lock [simp]: "get_job (db\<lparr>domain_locks := ls\<rparr>) jid = get_job db jid"
  by (simp add: get_job_def)

lemma find_domain_lock_delete [simp]:
  "find_domain_lock (delete_domain_lock d db) d = None"
  by (simp add: find_domain_lock_def delete_domain_lock_def find_None_iff)

lemma find_domain_lock_update_job [simp]:
  "find_domain_lock (update_job jid f db) d = find_domain_lock db d"
  by (simp add: find_domain_lock_def)

lemma find_append_None:
  "find P xs = None \<Longrightarrow> find P (xs @ ys) = find P ys"
  by (induction xs) (auto split: if_splits)

lemma find_dedup_new_job:
  "find_dedup db n (utc_day now1) = None \<Longrightarrow> utc_day now2 = utc_day now1 \<Longrightarrow>
   find_dedup (db\<lparr>jobs := jobs db @ [new_job E now1 uuid n d a]\<rparr>) n (utc_day now2)
     = Some (new_job E now1 uuid n d a)"
  by (simp add: find_dedup_def find_append_None new_job_def)

section \<open>Evaluation of the concrete inputs\<close>

lemma create_p1:
  "create_job example_env 1000 ''u1'' ''https://example.com/p1'' no_overrides empty_store
     = (Inr (job_p1, False), db_one)"
  by code_simp

lemma create_p2:
  "create_job example_env 1001 ''u2'' ''https://example.com/p2'' no_overrides db_one
     = (Inr (job_p2, False), db_two)"
  by code_simp

lemma db_two_constraints: "db_constraints db_two"
  by code_simp

lemma db_two_candidate: "next_candidate db_two = Some job_p1"
  by code_simp

lemma db_running_constraints: "db_constraints db_running"
  by code_simp

lemma db_running_candidate: "next_candidate db_running = Some job_p2"
  by code_simp

section \<open>Retry policy\<close>

text \<open>
  C1. The worker's retry rule on the second failed run of a job with
  \<^verbatim>\<open>max_retries = 2\<close>: the error is retryable and \<^verbatim>\<open>attempts < max_retries + 1\<close> holds,
  but \<^verbatim>\<open>should_retry\<close> compares \<^verbatim>\<open>attempts < max_retries\<close>, answers no, and the run loop
  completes the job as failed instead of requeueing it for a third run.
\<close>

theorem should_retry_refuses_last_retry:
  "should_retry (job\<lparr>attempts := 2, max_retries := 2\<rparr>) (Some ''RENDER_FAILED'') = False
   \<and> attempts (job\<lparr>attempts := 2, max_retries := 2\<rparr>)
       < max_retries (job\<lparr>attempts := 2, max_retries := 2\<rparr>) + 1
   \<and> run_update_status now (job\<lparr>attempts := 2, max_retries := 2\<rparr>)
        (False, Some ''RENDER_FAILED'', Some ''boom'') db
      = complete_job now (job_id job) False (Some ''RENDER_FAILED'') (Some ''boom'') db"
  by (simp add: should_retry_def non_retryable_def run_update_status_def or_str_def)

section \<open>Claiming the next job\<close>

text \<open>
  C5. When \<^verbatim>\<open>claim_next_job\<close> has a candidate and a \<^verbatim>\<open>DomainLock\<close> row exists for the
  candidate's \<^verbatim>\<open>main_domain\<close> (whoever holds it): if \<^verbatim>\<open>now - created_at\<close> exceeds the
  job's \<^verbatim>\<open>max_domain_wait_seconds\<close>, the job becomes \<^verbatim>\<open>FAILED\<close> with
  \<^verbatim>\<open>error_code = DOMAIN_WAIT_TIMEOUT\<close> and \<^verbatim>\<open>finished_at = now\<close> and the call returns
  none; otherwise the job is (set to) \<^verbatim>\<open>WAITING_DOMAIN_LOCK\<close> and the call returns none;
  the locks are left alone in both cases. When no lock row exists, a lock row for the
  job is inserted, the job becomes \<^verbatim>\<open>RUNNING\<close> with \<^verbatim>\<open>started_at = now\<close> and
  \<^verbatim>\<open>attempts\<close> one more, and the call returns that job.
\<close>

theorem claim_next_job_cases:
  assumes "db_constraints db" and "next_candidate db = Some job"
  shows
    "(find_domain_lock db (main_domain job) = Some lock \<and>
        now - created_at job > max_domain_wait_seconds job * 1000000 \<longrightarrow>
      fst (claim_next_job now db) = None \<and>
      get_job (snd (claim_next_job now db)) (job_id job)
        = Some ((wait_timeout job)\<lparr>finished_at := Some now\<rparr>) \<and>
      status (wait_timeout job) = FAILED \<and>
      error_code (wait_timeout job) = Some ''DOMAIN_WAIT_TIMEOUT'' \<and>
      domain_locks (snd (claim_next_job now db)) = domain_locks db) \<and>
     (find_domain_lock db (main_domain job) = Some lock \<and>
        \<not> now - created_at job > max_domain_wait_seconds job * 1000000 \<longrightarrow>
      fst (claim_next_job now db) = None \<and>
      get_job (snd (claim_next_job now db)) (job_id job)
        = Some (job\<lparr>status := WAITING_DOMAIN_LOCK\<rparr>) \<and>
      domain_locks (snd (claim_next_job now db)) = domain_locks db) \<and>
     (find_domain_lock db (main_domain job) = None \<longrightarrow>
      fst (claim_next_job now db)
        = Some (job\<lparr>status := RUNNING, started_at := Some now, attempts := attempts job + 1\<rparr>) \<and>
      get_job (snd (claim_next_job now db)) (job_id job) = fst (claim_next_job now db) \<and>
      domain_locks (snd (claim_next_job now db))
        = domain_locks db @ [\<lparr>lock_main_domain = main_domain job, lock_job_id = job_id job,
                              locked_at = now,
                              max_wait_seconds = max_domain_wait_seconds job\<rparr>])"
proof -
  from assms have g: "get_job db (job_id job) = Some job"
    using next_candidate_mem get_job_mem by blast
  have timeout: "find_domain_lock db (main_domain job) = Some lock \<and>
        now - created_at job > max_domain_wait_seconds job * 1000000 \<longrightarrow>
      fst (claim_next_job now db) = None \<and>
      get_job (snd (claim_next_job now db)) (job_id job)
        = Some ((wait_timeout job)\<lparr>finished_at := Some now\<rparr>) \<and>
      status (wait_timeout job) = FAILED \<and>
      error_code (wait_timeout job) = Some ''DOMAIN_WAIT_TIMEOUT'' \<and>
      domain_locks (snd (claim_next_job now db)) = domain_locks db"
    using assms(2) g
    by (simp add: claim_next_job_def get_job_update_job wait_timeout_def)
  have waiting: "find_domain_lock db (main_domain job) = Some lock \<and>
        \<not> now - created_at job > max_domain_wait_seconds job * 1000000 \<longrightarrow>
      fst (claim_next_job now db) = None \<and>
      get_job (snd (claim_next_job now db)) (job_id job)
        = Some (job\<lparr>status := WAITING_DOMAIN_LOCK\<rparr>) \<and>
      domain_locks (snd (claim_next_job now db)) = domain_locks db"
    using assms(2) g
    by (auto simp add: claim_next_job_def get_job_update_job)
  have acquire: "find_domain_lock db (main_domain job) = None \<longrightarrow>
      fst (claim_next_job now db)
        = Some (job\<lparr>status := RUNNING, started_at := Some now, attempts := attempts job + 1\<rparr>) \<and>
      get_job (snd (claim_next_job now db)) (job_id job) = fst (claim_next_job now db) \<and>
      domain_locks (snd (claim_next_job now db))
        = domain_locks db @ [\<lparr>lock_main_domain = main_domain job, lock_job_id = job_id job,
                              locked_at = now,
                              max_wait_seconds = max_domain_wait_seconds job\<rparr>]"
    using assms(2) g
    by (simp add: claim_next_job_def get_job_update_job Let_def)
  from timeout waiting acquire show ?thesis by blast
qed

theorem claim_next_job_cases_witness:
  "fst (claim_next_job 2000 db_two)
     = Some (job_p1\<lparr>status := RUNNING, started_at := Some 2000, attempts := attempts job_p1 + 1\<rparr>)
   \<and> get_job (snd (claim_next_job 3000 db_running)) ''u2''
     = Some (job_p2\<lparr>status := WAITING_DOMAIN_LOCK\<rparr>)
   \<and> get_job (snd (claim_next_job 700000000 db_running)) ''u2''
     = Some ((wait_timeout job_p2)\<lparr>finished_at := Some 700000000\<rparr>)"
proof -
  have free: "find_domain_lock db_two (main_domain job_p1) = None"
    by code_simp
  have held: "find_domain_lock db_running (main_domain job_p2)
      = Some \<lparr>lock_main_domain = ''example.com'', lock_job_id = ''u1'', locked_at = 2000,
              max_wait_seconds = 600\<rparr>"
    by code_simp
  have early: "\<not> 3000 - created_at job_p2 > max_domain_wait_seconds job_p2 * 1000000"
    by code_simp
  have late: "700000000 - created_at job_p2 > max_domain_wait_seconds job_p2 * 1000000"
    by code_simp
  have id2: "job_id job_p2 = ''u2''"
    by code_simp
  from claim_next_job_cases [OF db_two_constraints db_two_candidate, of _ 2000] free
  have a: "fst (claim_next_job 2000 db_two)
     = Some (job_p1\<lparr>status := RUNNING, started_at := Some 2000, attempts := attempts job_p1 + 1\<rparr>)"
    by blast
  from claim_next_job_cases [OF db_running_constraints db_running_candidate, of _ 3000] held early id2
  have b: "get_job (snd (claim_next_job 3000 db_running)) ''u2''
     = Some (job_p2\<lparr>status := WAITING_DOMAIN_LOCK\<rparr>)"
    by metis
  from claim_next_job_cases [OF db_running_constraints db_running_candidate, of _ 700000000] held late id2
  have c: "get_job (snd (claim_next_job 700000000 db_running)) ''u2''
     = Some ((wait_timeout job_p2)\<lparr>finished_at := Some 700000000\<rparr>)"
    by metis
  from a b c show ?thesis by blast
qed

section \<open>Submission\<close>

lemma find_dedup_Some:
  "find_dedup db n d = Some j \<Longrightarrow>
     j \<in> set (jobs db) \<and> normalized_url j = n \<and> submission_date j = d"
  by (auto simp: find_dedup_def find_Some_iff in_set_conv_nth)

lemma find_dedup_None:
  "find_dedup db n d = None \<Longrightarrow>
     (n, d) \<notin> set (map (\<lambda>j. (normalized_url j, submission_date j)) (jobs db))"
  by (auto simp: find_dedup_def find_None_iff)

lemma validate_ssrf_hostname:
  "validate_ssrf E url = Inr () \<Longrightarrow>
     \<exists>parsed h. urlparse E url = Inr parsed \<and> hostname parsed = Some h"
  by (auto simp: validate_ssrf_def split: sum.splits option.splits)

lemma extract_main_domain_valid:
  "validate_ssrf E url = Inr () \<Longrightarrow> \<exists>d. extract_main_domain E url = Inr d"
  using validate_ssrf_hostname [of E url]
  by (auto simp: extract_main_domain_def)

text \<open>
  C4. For a URL that both validators accept and \<^verbatim>\<open>normalize_url\<close> normalizes, and a
  fresh \<^verbatim>\<open>uuid4\<close>: \<^verbatim>\<open>create_job\<close> returns a job that is stored, whose \<^verbatim>\<open>normalized_url\<close>
  is the URL's fingerprint and whose \<^verbatim>\<open>submission_date\<close> is today; a second
  \<^verbatim>\<open>create_job\<close> for the same URL on the same UTC day (whatever its other arguments)
  returns that same job row, hence the same \<^verbatim>\<open>job_id\<close>, with the deduplicated flag
  set, and leaves the store as the first call left it.
\<close>

theorem create_job_twice:
  assumes valid: "validate_url_format E url = Inr ()" "validate_ssrf E url = Inr ()"
      "normalize_url E url = Inr n"
    and fresh: "uuid1 \<notin> set (map job_id (jobs db))"
    and day: "utc_day now2 = utc_day now1"
  shows "\<exists>job d1.
           fst (create_job E now1 uuid1 url a1 db) = Inr (job, d1) \<and>
           job \<in> set (jobs (snd (create_job E now1 uuid1 url a1 db))) \<and>
           normalized_url job = n \<and>
           submission_date job = utc_day now1 \<and>
           create_job E now2 uuid2 url a2 (snd (create_job E now1 uuid1 url a1 db))
             = (Inr (job, True), snd (create_job E now1 uuid1 url a1 db))"
proof -
  from extract_main_domain_valid [OF valid(2)] obtain d where d: "extract_main_domain E url = Inr d"
    by blast
  show ?thesis
  proof (cases "find_dedup db n (utc_day now1)")
    case (Some j)
    then have first: "create_job E now1 uuid1 url a1 db = (Inr (j, True), db)"
      using valid d by (simp add: create_job_def)
    have second: "create_job E now2 uuid2 url a2 db = (Inr (j, True), db)"
      using Some valid d day by (simp add: create_job_def)
    from find_dedup_Some [OF Some] first second show ?thesis
      by auto
  next
    case None
    define job where "job = new_job E now1 uuid1 n d a1"
    have nv: "\<not> violates_constraints db job"
      using fresh find_dedup_None [OF None]
      by (simp add: violates_constraints_def job_def new_job_def)
    have first: "create_job E now1 uuid1 url a1 db = (Inr (job, False), db\<lparr>jobs := jobs db @ [job]\<rparr>)"
      using None valid d nv by (simp add: create_job_def Let_def job_def)
    have "find_dedup (db\<lparr>jobs := jobs db @ [job]\<rparr>) n (utc_day now2) = Some job"
      unfolding job_def using None day by (rule find_dedup_new_job)
    then have second: "create_job E now2 uuid2 url a2 (db\<lparr>jobs := jobs db @ [job]\<rparr>)
        = (Inr (job, True), db\<lparr>jobs := jobs db @ [job]\<rparr>)"
      using valid d by (simp add: create_job_def)
    have "normalized_url job = n" "submission_date job = utc_day now1"
      by (simp_all add: job_def new_job_def)
    with first second show ?thesis
      by auto
  qed
qed

theorem create_job_twice_witness:
  "\<exists>job d1.
     fst (create_job example_env 1000 ''u1'' ''https://example.com/p1'' no_overrides empty_store)
       = Inr (job, d1) \<and>
     job \<in> set (jobs (snd (create_job example_env 1000 ''u1'' ''https://example.com/p1''
                               no_overrides empty_store))) \<and>
     normalized_url job = ''https://example.com/p1'' \<and>
     submission_date job = utc_day 1000 \<and>
     create_job example_env 5000 ''u9'' ''https://example.com/p1''
         (no_overrides\<lparr>arg_max_retries := Some 5\<rparr>)
         (snd (create_job example_env 1000 ''u1'' ''https://example.com/p1'' no_overrides empty_store))
       = (Inr (job, True),
          snd (create_job example_env 1000 ''u1'' ''https://example.com/p1'' no_overrides empty_store))"
proof -
  have v1: "validate_url_format example_env ''https://example.com/p1'' = Inr ()"
    by code_simp
  have v2: "validate_ssrf example_env ''https://example.com/p1'' = Inr ()"
    by code_simp
  have v3: "normalize_url example_env ''https://example.com/p1'' = Inr ''https://example.com/p1''"
    by code_simp
  have fresh: "''u1'' \<notin> set (map job_id (jobs empty_store))"
    by (simp add: empty_store_def)
  have day: "utc_day 5000 = utc_day 1000"
    by (simp add: utc_day_def)
  show ?thesis
    by (rule create_job_twice [OF v1 v2 v3 fresh day])
qed

text \<open>
  C10. A job that \<^verbatim>\<open>create_job\<close> creates takes the configured default for every
  snapshot field whose override is falsy: \<^verbatim>\<open>None\<close> or 0 for the four numeric fields
  (so \<^verbatim>\<open>max_retries = 0\<close> becomes the default, 2 unless the environment changes it),
  \<^verbatim>\<open>None\<close> or the empty string for \<^verbatim>\<open>render_mode\<close>.
\<close>

theorem create_job_falsy_overrides:
  assumes "create_job E now uuid url a db = (Inr (job, False), db')"
  shows
    "job \<in> set (jobs db') \<and>
     (arg_max_retries a \<in> {None, Some 0} \<longrightarrow>
        max_retries job = settings_max_retries (settings E)) \<and>
     (arg_navigation_timeout_seconds a \<in> {None, Some 0} \<longrightarrow>
        navigation_timeout_seconds job = settings_navigation_timeout_seconds (settings E)) \<and>
     (arg_job_timeout_seconds a \<in> {None, Some 0} \<longrightarrow>
        job_timeout_seconds job = settings_job_timeout_seconds (settings E)) \<and>
     (arg_max_domain_wait_seconds a \<in> {None, Some 0} \<longrightarrow>
        max_domain_wait_seconds job = settings_max_domain_wait_seconds (settings E)) \<and>
     (arg_render_mode a \<in> {None, Some []} \<longrightarrow>
        render_mode job = default_render_mode (settings E))"
proof -
  from assms obtain n d where
    "job = new_job E now uuid n d a" "db' = db\<lparr>jobs := jobs db @ [job]\<rparr>"
    by (auto simp: create_job_def Let_def split: sum.splits option.splits if_splits)
  then show ?thesis
    by (auto simp: new_job_def or_int_def or_str_def)
qed

theorem create_job_falsy_overrides_witness:
  "max_retries (new_job example_env 1000 ''u1'' ''https://example.com/p1'' ''example.com''
                  (no_overrides\<lparr>arg_max_retries := Some 0\<rparr>)) = 2"
proof -
  have c: "create_job example_env 1000 ''u1'' ''https://example.com/p1''
             (no_overrides\<lparr>arg_max_retries := Some 0\<rparr>) empty_store
           = (Inr (new_job example_env 1000 ''u1'' ''https://example.com/p1'' ''example.com''
                     (no_overrides\<lparr>arg_max_retries := Some 0\<rparr>), False),
              \<lparr>jobs = [new_job example_env 1000 ''u1'' ''https://example.com/p1'' ''example.com''
                         (no_overrides\<lparr>arg_max_retries := Some 0\<rparr>)], domain_locks = []\<rparr>)"
    by code_simp
  have s: "settings_max_retries (settings example_env) = 2"
    by (simp add: example_env_def default_settings_def)
  from create_job_falsy_overrides [OF c] s show ?thesis by simp
qed

section \<open>Completing and requeueing\<close>

text \<open>
  C2, as the code has it. \<^verbatim>\<open>complete_job\<close> and \<^verbatim>\<open>requeue_job\<close> return without a change
  only when no row has the given \<^verbatim>\<open>job_id\<close>. For a row that exists its status is not
  looked at: \<^verbatim>\<open>complete_job\<close> sets the status to \<^verbatim>\<open>SUCCEEDED\<close> or \<^verbatim>\<open>FAILED\<close> and
  \<^verbatim>\<open>finished_at\<close> to now, \<^verbatim>\<open>requeue_job\<close> sets the status to \<^verbatim>\<open>QUEUED\<close>, and both
  delete the lock row of the job's \<^verbatim>\<open>main_domain\<close>.
\<close>

theorem complete_requeue_unguarded:
  "(get_job db jid = None \<longrightarrow>
      complete_job now jid success ec em db = db \<and> requeue_job jid db = db) \<and>
   (get_job db jid = Some j \<longrightarrow>
      map_option status (get_job (complete_job now jid success ec em db) jid)
        = Some (if success then SUCCEEDED else FAILED) \<and>
      map_option finished_at (get_job (complete_job now jid success ec em db) jid)
        = Some (Some now) \<and>
      find_domain_lock (complete_job now jid success ec em db) (main_domain j) = None \<and>
      map_option status (get_job (requeue_job jid db) jid) = Some QUEUED \<and>
      find_domain_lock (requeue_job jid db) (main_domain j) = None)"
  by (simp add: complete_job_def requeue_job_def get_job_update_job)

theorem complete_requeue_unguarded_witness:
  "complete_job 5000 ''u7'' True None None db_done = db_done
   \<and> requeue_job ''u7'' db_done = db_done
   \<and> map_option status (get_job (complete_job 5000 ''u1'' False (Some ''X'') (Some ''late'') db_done) ''u1'')
       = Some FAILED
   \<and> map_option status (get_job (requeue_job ''u1'' db_done) ''u1'') = Some QUEUED"
proof -
  have n: "get_job db_done ''u7'' = None"
    by code_simp
  have s: "get_job db_done ''u1''
      = Some (job_p1\<lparr>status := SUCCEEDED, attempts := 1, started_at := Some 2000,
                      finished_at := Some 4000\<rparr>)"
    by code_simp
  from complete_requeue_unguarded
         [where db = db_done and jid = "''u7''" and now = 5000 and success = True
            and ec = None and em = None] n
  have a: "complete_job 5000 ''u7'' True None None db_done = db_done
           \<and> requeue_job ''u7'' db_done = db_done"
    by blast
  from complete_requeue_unguarded
         [where db = db_done and jid = "''u1''" and now = 5000 and success = False
            and ec = "Some ''X''" and em = "Some ''late''"] s
  have b: "map_option status
             (get_job (complete_job 5000 ''u1'' False (Some ''X'') (Some ''late'') db_done) ''u1'')
             = Some FAILED
           \<and> map_option status (get_job (requeue_job ''u1'' db_done) ''u1'') = Some QUEUED"
    by simp
  from a b show ?thesis by blast
qed

text \<open>
  The claim as stated fails: the job \<^verbatim>\<open>u1\<close> of \<^verbatim>\<open>db_done\<close> is \<^verbatim>\<open>SUCCEEDED\<close> and a later
  \<^verbatim>\<open>complete_job\<close> turns it into \<^verbatim>\<open>FAILED\<close>; the job \<^verbatim>\<open>u2\<close> of \<^verbatim>\<open>db_running\<close> is
  \<^verbatim>\<open>QUEUED\<close> and \<^verbatim>\<open>requeue_job\<close> for it deletes the lock row that \<^verbatim>\<open>u1\<close> holds.
\<close>

theorem complete_requeue_noop_counterexample:
  "map status (jobs db_done) = [SUCCEEDED, QUEUED]
   \<and> map status (jobs (complete_job 5000 ''u1'' False (Some ''X'') (Some ''late'') db_done))
       = [FAILED, QUEUED]
   \<and> map status (jobs db_running) = [RUNNING, QUEUED]
   \<and> map lock_job_id (domain_locks db_running) = [''u1'']
   \<and> domain_locks (requeue_job ''u2'' db_running) = []"
  by code_simp

section \<open>The lock invariant\<close>

lemma distinct_ids_eq:
  "distinct (map job_id js) \<Longrightarrow> j \<in> set js \<Longrightarrow> k \<in> set js \<Longrightarrow> job_id j = job_id k \<Longrightarrow> j = k"
  by (meson distinct_map inj_onD)

lemma map_update_keys:
  "keeps_keys f \<Longrightarrow>
   map job_id (map (\<lambda>j. if job_id j = jid then f j else j) js) = map job_id js \<and>
   map (\<lambda>j. (normalized_url j, submission_date j)) (map (\<lambda>j. if job_id j = jid then f j else j) js)
     = map (\<lambda>j. (normalized_url j, submission_date j)) js"
  by (induction js) (auto simp: keeps_keys_def)

lemma db_constraints_update_job:
  "keeps_keys f \<Longrightarrow> db_constraints db \<Longrightarrow> db_constraints (update_job jid f db)"
  by (simp add: db_constraints_def update_job_def map_update_keys del: map_map)

lemma db_constraints_delete:
  "db_constraints db \<Longrightarrow> db_constraints (delete_domain_lock d db)"
  by (simp add: db_constraints_def delete_domain_lock_def distinct_map_filter)

lemma locks_owned_delete:
  "locks_owned db \<Longrightarrow> locks_owned (delete_domain_lock d db)"
  by (auto simp: locks_owned_def db_constraints_delete) (auto simp: delete_domain_lock_def)

lemma no_lock_if_not_running:
  assumes "locks_owned db" "j \<in> set (jobs db)" "status j \<noteq> RUNNING" "l \<in> set (domain_locks db)"
  shows "lock_job_id l \<noteq> job_id j"
proof
  assume e: "lock_job_id l = job_id j"
  from assms(1,4) obtain k where k: "k \<in> set (jobs db)" "job_id k = lock_job_id l" "status k = RUNNING"
    by (auto simp: locks_owned_def)
  with assms(1,2) e have "k = j"
    by (auto simp: locks_owned_def db_constraints_def intro: distinct_ids_eq)
  with k assms(3) show False by simp
qed

lemma lock_domain_of_owner:
  assumes "locks_owned db" "j \<in> set (jobs db)" "l \<in> set (domain_locks db)" "lock_job_id l = job_id j"
  shows "lock_main_domain l = main_domain j \<and> status j = RUNNING"
proof -
  from assms(1,3) obtain k where k: "k \<in> set (jobs db)" "job_id k = lock_job_id l"
      "status k = RUNNING" "main_domain k = lock_main_domain l"
    by (auto simp: locks_owned_def)
  with assms have "k = j"
    by (auto simp: locks_owned_def db_constraints_def intro: distinct_ids_eq)
  with k show ?thesis by simp
qed

lemma locks_owned_update_job:
  assumes "locks_owned db" "keeps_keys f" "\<forall>l\<in>set (domain_locks db). lock_job_id l \<noteq> jid"
  shows "locks_owned (update_job jid f db)"
  unfolding locks_owned_def
proof (intro conjI ballI)
  show "db_constraints (update_job jid f db)"
    using assms by (simp add: locks_owned_def db_constraints_update_job)
next
  fix l assume l: "l \<in> set (domain_locks (update_job jid f db))"
  then have l': "l \<in> set (domain_locks db)" by (simp add: update_job_def)
  with assms(1) obtain k where k: "k \<in> set (jobs db)" "job_id k = lock_job_id l"
      "status k = RUNNING" "main_domain k = lock_main_domain l"
    by (auto simp: locks_owned_def)
  with assms(3) l' have "job_id k \<noteq> jid" by auto
  with k have "k \<in> set (jobs (update_job jid f db))"
    by (auto simp: update_job_def image_iff intro!: bexI [of _ k])
  with k show "\<exists>j\<in>set (jobs (update_job jid f db)).
      job_id j = lock_job_id l \<and> status j = RUNNING \<and> main_domain j = lock_main_domain l"
    by blast
qed


lemma locks_owned_empty: "locks_owned empty_store"
  by (simp add: locks_owned_def db_constraints_def empty_store_def)

lemma locks_owned_create_job:
  assumes "locks_owned db"
  shows "locks_owned (snd (create_job E now uuid url a db))"
proof -
  have "snd (create_job E now uuid url a db) = db \<or>
        (\<exists>job. snd (create_job E now uuid url a db) = db\<lparr>jobs := jobs db @ [job]\<rparr>
               \<and> \<not> violates_constraints db job)"
    by (auto simp: create_job_def Let_def split: sum.splits option.splits)
  then show ?thesis
  proof
    assume "snd (create_job E now uuid url a db) = db"
    with assms show ?thesis by simp
  next
    assume "\<exists>job. snd (create_job E now uuid url a db) = db\<lparr>jobs := jobs db @ [job]\<rparr>
               \<and> \<not> violates_constraints db job"
    then obtain job where j: "snd (create_job E now uuid url a db) = db\<lparr>jobs := jobs db @ [job]\<rparr>"
      "\<not> violates_constraints db job" by blast
    from assms j(2) have "locks_owned (db\<lparr>jobs := jobs db @ [job]\<rparr>)"
      by (fastforce simp: locks_owned_def db_constraints_def violates_constraints_def)
    with j show ?thesis by simp
  qed
qed

lemma keeps_keys_simps [simp]:
  "keeps_keys (\<lambda>j. (wait_timeout j)\<lparr>finished_at := t\<rparr>)"
  "keeps_keys (\<lambda>j. j\<lparr>status := s\<rparr>)"
  "keeps_keys (\<lambda>j. j\<lparr>status := s, started_at := t\<rparr>)"
  "keeps_keys (\<lambda>j. j\<lparr>status := s, started_at := t, attempts := attempts j + 1\<rparr>)"
  "keeps_keys (\<lambda>j. (if b then j\<lparr>status := s, error_code := e1, error_message := m1\<rparr>
                     else j\<lparr>status := s', error_code := e2, error_message := m2\<rparr>)\<lparr>finished_at := t\<rparr>)"
  by (simp_all add: keeps_keys_def wait_timeout_def)

lemma find_domain_lock_None:
  "find_domain_lock db d = None \<Longrightarrow> l \<in> set (domain_locks db) \<Longrightarrow> lock_main_domain l \<noteq> d"
  by (auto simp: find_domain_lock_def find_None_iff)

lemma locks_owned_acquire:
  assumes lo: "locks_owned db" and j: "j \<in> set (jobs db)" and nr: "status j \<noteq> RUNNING"
    and fr: "find_domain_lock db (main_domain j) = None"
    and kk: "keeps_keys f" and run: "status (f j) = RUNNING"
    and nl: "lock_main_domain nl = main_domain j" "lock_job_id nl = job_id j"
  shows "locks_owned (update_job (job_id j) f (db\<lparr>domain_locks := domain_locks db @ [nl]\<rparr>))"
  unfolding locks_owned_def
proof (intro conjI ballI)
  have "db_constraints (db\<lparr>domain_locks := domain_locks db @ [nl]\<rparr>)"
    using lo fr nl by (auto simp: locks_owned_def db_constraints_def dest: find_domain_lock_None)
  then show "db_constraints (update_job (job_id j) f (db\<lparr>domain_locks := domain_locks db @ [nl]\<rparr>))"
    using kk by (simp add: db_constraints_update_job)
next
  fix l
  assume "l \<in> set (domain_locks (update_job (job_id j) f (db\<lparr>domain_locks := domain_locks db @ [nl]\<rparr>)))"
  then have "l \<in> set (domain_locks db) \<or> l = nl" by (auto simp: update_job_def)
  then show "\<exists>k\<in>set (jobs (update_job (job_id j) f (db\<lparr>domain_locks := domain_locks db @ [nl]\<rparr>))).
      job_id k = lock_job_id l \<and> status k = RUNNING \<and> main_domain k = lock_main_domain l"
  proof
    assume l: "l \<in> set (domain_locks db)"
    with lo obtain k where k: "k \<in> set (jobs db)" "job_id k = lock_job_id l"
      "status k = RUNNING" "main_domain k = lock_main_domain l"
      by (auto simp: locks_owned_def)
    from no_lock_if_not_running [OF lo j nr l] k have "job_id k \<noteq> job_id j" by simp
    with k show ?thesis
      by (auto simp: update_job_def image_iff intro!: bexI [of _ k])
  next
    assume l: "l = nl"
    from j have "f j \<in> set (jobs (update_job (job_id j) f (db\<lparr>domain_locks := domain_locks db @ [nl]\<rparr>)))"
      by (auto simp: update_job_def image_iff intro!: bexI [of _ j])
    moreover from kk have "job_id (f j) = job_id j" "main_domain (f j) = main_domain j"
      by (simp_all add: keeps_keys_def)
    ultimately show ?thesis using l nl run by (intro bexI [of _ "f j"]) simp_all
  qed
qed

lemma locks_owned_claim:
  assumes "locks_owned db"
  shows "locks_owned (snd (claim_next_job now db))"
proof (cases "next_candidate db")
  case None
  with assms show ?thesis by (simp add: claim_next_job_def)
next
  case (Some job)
  then have j: "job \<in> set (jobs db)" "status job \<noteq> RUNNING"
    using next_candidate_mem by fastforce+
  have nolock: "\<forall>l\<in>set (domain_locks db). lock_job_id l \<noteq> job_id job"
    using no_lock_if_not_running [OF assms j] by blast
  show ?thesis
  proof (cases "find_domain_lock db (main_domain job)")
    case None
    with Some show ?thesis
      by (simp add: claim_next_job_def Let_def locks_owned_acquire [OF assms j None])
  next
    case (Some lock)
    with \<open>next_candidate db = Some job\<close> assms nolock show ?thesis
      by (simp add: claim_next_job_def locks_owned_update_job)
  qed
qed

lemma no_lock_after_delete:
  assumes "locks_owned db" "get_job db jid = Some j"
  shows "\<forall>l\<in>set (domain_locks (delete_domain_lock (main_domain j) db)). lock_job_id l \<noteq> jid"
proof
  fix l assume "l \<in> set (domain_locks (delete_domain_lock (main_domain j) db))"
  then have l: "l \<in> set (domain_locks db)" "lock_main_domain l \<noteq> main_domain j"
    by (auto simp: delete_domain_lock_def)
  from assms(2) have j: "j \<in> set (jobs db)" "job_id j = jid" using get_job_Some by blast+
  show "lock_job_id l \<noteq> jid"
    using lock_domain_of_owner [OF assms(1) j(1) l(1)] l(2) j(2) by auto
qed

lemma update_delete_commute:
  "delete_domain_lock d (update_job jid f db) = update_job jid f (delete_domain_lock d db)"
  by (simp add: delete_domain_lock_def update_job_def)

lemma locks_owned_complete:
  assumes "locks_owned db"
  shows "locks_owned (complete_job now jid success ec em db)"
proof (cases "get_job db jid")
  case None
  with assms show ?thesis by (simp add: complete_job_def)
next
  case (Some j)
  with assms show ?thesis
    by (simp add: complete_job_def update_delete_commute locks_owned_update_job
        locks_owned_delete no_lock_after_delete)
qed

lemma locks_owned_requeue:
  assumes "locks_owned db"
  shows "locks_owned (requeue_job jid db)"
proof (cases "get_job db jid")
  case None
  with assms show ?thesis by (simp add: requeue_job_def)
next
  case (Some j)
  with assms show ?thesis
    by (simp add: requeue_job_def locks_owned_update_job locks_owned_delete no_lock_after_delete)
qed

lemma queue_reachable_locks_owned: "queue_reachable E db \<Longrightarrow> locks_owned db"
  by (induction rule: queue_reachable.induct)
     (simp_all add: locks_owned_empty locks_owned_create_job locks_owned_claim
        locks_owned_complete locks_owned_requeue)

lemma worker_reachable_queue: "worker_reachable E db \<Longrightarrow> queue_reachable E db"
  by (induction rule: worker_reachable.induct) (auto intro: queue_reachable.intros)


lemma running_locked_empty: "running_locked empty_store"
  by (simp add: running_locked_def empty_store_def)

lemma running_locked_create_job:
  assumes "running_locked db"
  shows "running_locked (snd (create_job E now uuid url a db))"
proof -
  have "snd (create_job E now uuid url a db) = db \<or>
        (\<exists>n d. snd (create_job E now uuid url a db)
                 = db\<lparr>jobs := jobs db @ [new_job E now uuid n d a]\<rparr>)"
    by (auto simp: create_job_def Let_def split: sum.splits option.splits)
  with assms show ?thesis
    by (auto simp: running_locked_def new_job_def)
qed

lemma running_locked_update_job:
  assumes "running_locked db" "keeps_keys f"
    "\<forall>j\<in>set (jobs db). job_id j = jid \<longrightarrow> status (f j) \<noteq> RUNNING"
  shows "running_locked (update_job jid f db)"
  using assms by (auto simp: running_locked_def update_job_def keeps_keys_def)

lemma running_locked_acquire:
  assumes "running_locked db" "keeps_keys f" "lock_job_id nl = jid"
  shows "running_locked (update_job jid f (db\<lparr>domain_locks := domain_locks db @ [nl]\<rparr>))"
  using assms by (auto simp: running_locked_def update_job_def keeps_keys_def)

lemma running_locked_claim:
  assumes "running_locked db"
  shows "running_locked (snd (claim_next_job now db))"
proof (cases "next_candidate db")
  case None
  with assms show ?thesis by (simp add: claim_next_job_def)
next
  case (Some job)
  show ?thesis
  proof (cases "find_domain_lock db (main_domain job)")
    case None
    with Some assms show ?thesis
      by (simp add: claim_next_job_def Let_def running_locked_acquire)
  next
    case (Some lock)
    with \<open>next_candidate db = Some job\<close> assms show ?thesis
      by (auto simp: claim_next_job_def wait_timeout_def keeps_keys_def
               intro!: running_locked_update_job)
  qed
qed

lemma running_locked_release:
  assumes lo: "locks_owned db" and rl: "running_locked db"
    and g: "get_job db jid = Some j" and r: "status j = RUNNING"
    and kk: "keeps_keys f" and st: "\<forall>k. status (f k) \<noteq> RUNNING"
  shows "running_locked (update_job jid f (delete_domain_lock (main_domain j) db))"
  unfolding running_locked_def
proof (intro ballI impI)
  fix k
  assume k: "k \<in> set (jobs (update_job jid f (delete_domain_lock (main_domain j) db)))"
    and kr: "status k = RUNNING"
  from g have j: "j \<in> set (jobs db)" "job_id j = jid" using get_job_Some by blast+
  from k kr st have k': "k \<in> set (jobs db)" "job_id k \<noteq> jid"
    by (auto simp: update_job_def split: if_splits)
  from rl k'(1) kr obtain l where l: "l \<in> set (domain_locks db)" "lock_job_id l = job_id k"
    by (auto simp: running_locked_def)
  from rl j(1) r obtain l0 where l0: "l0 \<in> set (domain_locks db)" "lock_job_id l0 = job_id j"
    by (auto simp: running_locked_def)
  have d: "lock_main_domain l = main_domain k" "lock_main_domain l0 = main_domain j"
    using lock_domain_of_owner [OF lo k'(1) l] lock_domain_of_owner [OF lo j(1) l0] by simp_all
  have "lock_main_domain l \<noteq> main_domain j"
  proof
    assume "lock_main_domain l = main_domain j"
    with d have "lock_main_domain l = lock_main_domain l0" by simp
    with lo l(1) l0(1) have "l = l0"
      by (auto simp: locks_owned_def db_constraints_def distinct_map dest: inj_onD)
    with l l0 j k' show False by simp
  qed
  with l show "\<exists>l\<in>set (domain_locks (update_job jid f (delete_domain_lock (main_domain j) db))).
      lock_job_id l = job_id k"
    by (auto simp: delete_domain_lock_def)
qed

lemma running_locked_complete:
  assumes "locks_owned db" "running_locked db" "is_running db jid"
  shows "running_locked (complete_job now jid success ec em db)"
proof -
  from assms(3) obtain j where j: "get_job db jid = Some j" "status j = RUNNING"
    by (auto simp: is_running_def split: option.splits)
  with assms(1,2) show ?thesis
    by (simp add: complete_job_def update_delete_commute running_locked_release)
qed

lemma running_locked_requeue:
  assumes "locks_owned db" "running_locked db" "is_running db jid"
  shows "running_locked (requeue_job jid db)"
proof -
  from assms(3) obtain j where j: "get_job db jid = Some j" "status j = RUNNING"
    by (auto simp: is_running_def split: option.splits)
  with assms(1,2) show ?thesis
    by (simp add: requeue_job_def running_locked_release)
qed

lemma worker_reachable_running_locked:
  "worker_reachable E db \<Longrightarrow> running_locked db"
proof (induction rule: worker_reachable.induct)
  case w_init
  show ?case by (rule running_locked_empty)
next
  case (w_submit db now uuid url a)
  then show ?case by (simp add: running_locked_create_job)
next
  case (w_claim db now)
  then show ?case by (simp add: running_locked_claim)
next
  case (w_complete db jid now success ec em)
  then show ?case
    using running_locked_complete [OF queue_reachable_locks_owned [OF worker_reachable_queue]]
    by blast
next
  case (w_requeue db jid)
  then show ?case
    using running_locked_requeue [OF queue_reachable_locks_owned [OF worker_reachable_queue]]
    by blast
qed

lemma filter_le_one:
  "distinct (map f xs) \<Longrightarrow> \<forall>x\<in>set xs. P x \<longrightarrow> f x = c \<Longrightarrow> length (filter P xs) \<le> 1"
proof (induction xs)
  case Nil
  then show ?case by simp
next
  case (Cons x xs)
  show ?case
  proof (cases "P x")
    case True
    with Cons.prems have "\<forall>y\<in>set xs. \<not> P y" by (auto simp: image_iff)
    then have "filter P xs = []" by (simp add: filter_empty_conv)
    with True show ?thesis by simp
  next
    case False
    with Cons show ?thesis by simp
  qed
qed

lemma lock_count_le_one:
  assumes "locks_owned db" "j \<in> set (jobs db)"
  shows "lock_count db (job_id j) \<le> 1"
  unfolding lock_count_def
proof (rule filter_le_one [where f = lock_main_domain and c = "main_domain j"])
  show "distinct (map lock_main_domain (domain_locks db))"
    using assms(1) by (simp add: locks_owned_def db_constraints_def)
  show "\<forall>l\<in>set (domain_locks db). lock_job_id l = job_id j \<longrightarrow> lock_main_domain l = main_domain j"
    using lock_domain_of_owner [OF assms] by blast
qed

lemma lock_count_pos:
  "lock_count db jid > 0 \<longleftrightarrow> (\<exists>l\<in>set (domain_locks db). lock_job_id l = jid)"
  by (auto simp: lock_count_def filter_empty_conv)

lemma locked_imp_running:
  assumes "locks_owned db" "j \<in> set (jobs db)" "lock_count db (job_id j) = 1"
  shows "status j = RUNNING"
proof -
  from assms(3) obtain l where "l \<in> set (domain_locks db)" "lock_job_id l = job_id j"
    using lock_count_pos [of db "job_id j"] by auto
  with lock_domain_of_owner [OF assms(1,2)] show ?thesis by blast
qed

lemma running_imp_locked:
  assumes "locks_owned db" "running_locked db" "j \<in> set (jobs db)" "status j = RUNNING"
  shows "lock_count db (job_id j) = 1"
proof -
  from assms(2-4) have "lock_count db (job_id j) > 0"
    by (simp add: lock_count_pos running_locked_def)
  with lock_count_le_one [OF assms(1,3)] show ?thesis by simp
qed

lemma db_running_reachable: "worker_reachable example_env db_running"
proof -
  have "worker_reachable example_env db_one"
    using w_submit [OF w_init, of example_env 1000 "''u1''" "''https://example.com/p1''" no_overrides]
    by (simp add: create_p1)
  then have "worker_reachable example_env db_two"
    using w_submit [of example_env db_one 1001 "''u2''" "''https://example.com/p2''" no_overrides]
    by (simp add: create_p2)
  then show ?thesis
    unfolding db_running_def by (rule w_claim)
qed

text \<open>
  C3, as the code has it. In every store reached by submissions, claims, and
  completions and requeues of jobs that are \<^verbatim>\<open>RUNNING\<close> when the call is made (the only
  calls the worker makes), a job is \<^verbatim>\<open>RUNNING\<close> exactly when one lock row carries its
  \<^verbatim>\<open>job_id\<close>. In every store reached by any sequence of the four operations, no job
  has more than one lock row and a job with a lock row is \<^verbatim>\<open>RUNNING\<close>.
\<close>

theorem worker_reachable_running_iff_locked:
  "(worker_reachable E db \<longrightarrow> running_iff_locked db) \<and>
   (queue_reachable E db \<longrightarrow>
      list_all (\<lambda>j. lock_count db (job_id j) \<le> 1
                   \<and> (lock_count db (job_id j) = 1 \<longrightarrow> status j = RUNNING)) (jobs db))"
proof (intro conjI impI)
  assume w: "worker_reachable E db"
  then have lo: "locks_owned db" and rl: "running_locked db"
    using queue_reachable_locks_owned [OF worker_reachable_queue] worker_reachable_running_locked
    by blast+
  show "running_iff_locked db"
    unfolding running_iff_locked_def list_all_iff
    using locked_imp_running [OF lo] running_imp_locked [OF lo rl] by blast
next
  assume "queue_reachable E db"
  then have lo: "locks_owned db" by (rule queue_reachable_locks_owned)
  show "list_all (\<lambda>j. lock_count db (job_id j) \<le> 1
                   \<and> (lock_count db (job_id j) = 1 \<longrightarrow> status j = RUNNING)) (jobs db)"
    unfolding list_all_iff
    using locked_imp_running [OF lo] lock_count_le_one [OF lo] by blast
qed

theorem worker_reachable_running_iff_locked_witness:
  "running_iff_locked db_running \<and>
   list_all (\<lambda>j. lock_count (requeue_job ''u2'' db_running) (job_id j) \<le> 1
                \<and> (lock_count (requeue_job ''u2'' db_running) (job_id j) = 1
                     \<longrightarrow> status j = RUNNING))
            (jobs (requeue_job ''u2'' db_running))"
proof -
  have q: "queue_reachable example_env (requeue_job ''u2'' db_running)"
    using worker_reachable_queue [OF db_running_reachable] by (rule q_requeue)
  from worker_reachable_running_iff_locked [of example_env db_running] db_running_reachable
  have a: "running_iff_locked db_running"
    by blast
  from worker_reachable_running_iff_locked [of example_env "requeue_job ''u2'' db_running"] q
  have b: "list_all (\<lambda>j. lock_count (requeue_job ''u2'' db_running) (job_id j) \<le> 1
                \<and> (lock_count (requeue_job ''u2'' db_running) (job_id j) = 1
                     \<longrightarrow> status j = RUNNING))
            (jobs (requeue_job ''u2'' db_running))"
    by blast
  from a b show ?thesis by blast
qed

text \<open>
  The invariant fails under arbitrary sequences: after two submissions for one domain
  and a claim, \<^verbatim>\<open>requeue_job\<close> for the job that is still \<^verbatim>\<open>QUEUED\<close> deletes the lock row
  of the \<^verbatim>\<open>RUNNING\<close> job, which is then \<^verbatim>\<open>RUNNING\<close> with no lock row.
\<close>

theorem running_iff_locked_counterexample:
  "queue_reachable example_env (requeue_job ''u2'' db_running)
   \<and> \<not> running_iff_locked (requeue_job ''u2'' db_running)"
proof -
  have q: "queue_reachable example_env (requeue_job ''u2'' db_running)"
    using worker_reachable_queue [OF db_running_reachable] by (rule q_requeue)
  have n: "\<not> running_iff_locked (requeue_job ''u2'' db_running)"
    by code_simp
  from q n show ?thesis by blast
qed


section \<open>URL normalization\<close>

lemma code_inj: "code c = code d \<longleftrightarrow> c = d"
  by (simp add: code_def)

lemma code_lower:
  "code (lower_char c) = (if 65 \<le> code c \<and> code c \<le> 90 then code c + 32 else code c)"
  by (simp add: lower_char_def is_upper_def code_def)

lemma char_eq_code: "c = d \<longleftrightarrow> code c = code d"
  by (simp add: code_inj)

lemma lower_char_delim [simp]:
  "lower_char c = CHR '':'' \<longleftrightarrow> c = CHR '':''"
  "lower_char c = CHR ''/'' \<longleftrightarrow> c = CHR ''/''"
  "lower_char c = CHR ''?'' \<longleftrightarrow> c = CHR ''?''"
  "lower_char c = CHR ''#'' \<longleftrightarrow> c = CHR ''#''"
  "lower_char c = CHR '';'' \<longleftrightarrow> c = CHR '';''"
  by (simp_all add: char_eq_code [of _ "CHR '':''"] char_eq_code [of _ "CHR ''/''"]
        char_eq_code [of _ "CHR ''?''"] char_eq_code [of _ "CHR ''#''"]
        char_eq_code [of _ "CHR '';''"] code_lower) (simp_all add: code_def)

lemma lower_char_idem [simp]: "lower_char (lower_char c) = lower_char c"
  by (simp add: char_eq_code code_lower)

lemma lower_char_class [simp]:
  "unsafe_byte (lower_char c) = unsafe_byte c"
  "code (lower_char c) \<le> 32 \<longleftrightarrow> code c \<le> 32"
  "is_ascii_alpha (lower_char c) = is_ascii_alpha c"
  "is_digit (lower_char c) = is_digit c"
  "netloc_delim (lower_char c) = netloc_delim c"
  by (auto simp: unsafe_byte_def is_ascii_alpha_def is_upper_def is_digit_def code_lower
        netloc_delim_def)

lemma scheme_char_lower [simp]: "scheme_char (lower_char c) = scheme_char c"
proof -
  have "lower_char c = CHR ''+'' \<longleftrightarrow> c = CHR ''+''"
       "lower_char c = CHR ''-'' \<longleftrightarrow> c = CHR ''-''"
       "lower_char c = CHR ''.'' \<longleftrightarrow> c = CHR ''.''"
    by (simp_all add: char_eq_code [of _ "CHR ''+''"] char_eq_code [of _ "CHR ''-''"]
        char_eq_code [of _ "CHR ''.''"] code_lower) (simp_all add: code_def)
  then show ?thesis by (simp add: scheme_char_def)
qed

lemma lower_lower [simp]: "lower (lower s) = lower s"
  by (simp add: lower_def)

lemma lower_append [simp]: "lower (a @ b) = lower a @ lower b"
  by (simp add: lower_def)

lemma lower_Nil [simp]: "lower s = [] \<longleftrightarrow> s = []"
  by (simp add: lower_def)

lemma lower_empty [simp]: "lower [] = []"
  by (simp add: lower_def)


lemma list_all_scheme_lower [simp]: "list_all scheme_char (lower s) = list_all scheme_char s"
  by (induction s) (simp_all add: lower_def)

lemma mem_lower [simp]:
  "CHR '':'' \<in> set (lower s) \<longleftrightarrow> CHR '':'' \<in> set s"
  "CHR ''/'' \<in> set (lower s) \<longleftrightarrow> CHR ''/'' \<in> set s"
  "CHR ''?'' \<in> set (lower s) \<longleftrightarrow> CHR ''?'' \<in> set s"
  "CHR ''#'' \<in> set (lower s) \<longleftrightarrow> CHR ''#'' \<in> set s"
  "CHR '';'' \<in> set (lower s) \<longleftrightarrow> CHR '';'' \<in> set s"
  by (induction s; simp add: lower_def eq_commute [of "CHR '':''"] eq_commute [of "CHR ''/''"]
        eq_commute [of "CHR ''?''"] eq_commute [of "CHR ''#''"] eq_commute [of "CHR '';''"])+

lemma before_lower [simp]:
  "before CHR '':'' (lower s) = lower (before CHR '':'' s)"
  "before CHR ''?'' (lower s) = lower (before CHR ''?'' s)"
  "before CHR ''#'' (lower s) = lower (before CHR ''#'' s)"
  by (simp_all add: before_def lower_def takeWhile_map comp_def)

lemma after_lower [simp]:
  "after CHR '':'' (lower s) = lower (after CHR '':'' s)"
  "after CHR ''?'' (lower s) = lower (after CHR ''?'' s)"
  "after CHR ''#'' (lower s) = lower (after CHR ''#'' s)"
  by (simp_all add: after_def lower_def dropWhile_map comp_def drop_map)












































lemma rstrip_Nil [simp]: "rstrip c [] = []"
  by (simp add: rstrip_def)





























section \<open>The URL laws at concrete URLs\<close>







section \<open>SSRF check at submission\<close>

text \<open>
  C6. A host name that resolves to a private address: the \<^verbatim>\<open>try\<close> block of
  \<^verbatim>\<open>validate_ssrf\<close> raises \<^verbatim>\<open>SSRFError\<close>, its own handler \<^verbatim>\<open>except Exception: pass\<close>
  swallows it, \<^verbatim>\<open>validate_ssrf\<close> returns normally, and \<^verbatim>\<open>create_job\<close> inserts a job
  row instead of failing.
\<close>

theorem ssrf_resolution_swallowed:
  "resolve_and_check resolving_env ''internal.example.com''
     = Inl (SSRFError ''Hostname resolves to private IP: 10.0.0.5'')
   \<and> validate_ssrf resolving_env ''http://internal.example.com/'' = Inr ()
   \<and> create_job resolving_env 1000 ''u1'' ''http://internal.example.com/'' no_overrides empty_store
       = (Inr (new_job resolving_env 1000 ''u1'' ''http://internal.example.com/''
                 ''internal.example.com'' no_overrides, False),
          \<lparr>jobs = [new_job resolving_env 1000 ''u1'' ''http://internal.example.com/''
                     ''internal.example.com'' no_overrides],
            domain_locks = []\<rparr>)"
  by code_simp


end
